theory Spec2Isabelle
  imports Complex_Main
begin

section \<open>Python values used by the program\<close>

text \<open>
  A Python \<open>str\<close> is modelled as a \<open>string\<close>, one \<open>char\<close> per character, and a Python
  \<open>int\<close> as an \<open>int\<close>. An exception is a value carrying its message; a function that may
  raise returns \<open>exn + 'a\<close>, with \<open>Inl\<close> for the exception.
\<close>

datatype exn = Exception string

text \<open>
  \<open>text[start:stop]\<close>: a negative index counts from the end and both indices are clamped
  to the sequence, so a slice never raises.
\<close>

definition py_slice :: "'a list \<Rightarrow> int \<Rightarrow> int \<Rightarrow> 'a list" where
  "py_slice xs start stop =
     (let n = int (length xs);
          lo = (if start < 0 then max 0 (start + n) else min start n);
          hi = (if stop < 0 then max 0 (stop + n) else min stop n)
      in take (nat (hi - lo)) (drop (nat lo) xs))"

text \<open>
  \<open>str.upper()\<close> replaces every character by its upper-case form, which is one character
  or more (the sharp s becomes two letters). Which form a character has is laid down by
  the tables of the Unicode standard, outside the program, so the table is a parameter:
  it gives, for a character, the first character of its upper-case form and the rest.
\<close>

type_synonym upper_table = "char \<Rightarrow> char \<times> string"

definition upper :: "upper_table \<Rightarrow> string \<Rightarrow> string" where
  "upper up s = concat (map (\<lambda>c. fst (up c) # snd (up c)) s)"

text \<open>\<open>str(n)\<close> for a natural number: its decimal digits.\<close>

definition digit_char :: "nat \<Rightarrow> char" where
  "digit_char d = ''0123456789'' ! d"

fun str_nat :: "nat \<Rightarrow> string" where
  "str_nat n = (if n < 10 then [digit_char n] else str_nat (n div 10) @ [digit_char (n mod 10)])"

declare str_nat.simps [simp del]

text \<open>\<open>sep.join(parts)\<close>.\<close>

fun join :: "string \<Rightarrow> string list \<Rightarrow> string" where
  "join sep [] = []"
| "join sep [p] = p"
| "join sep (p # q # ps) = p @ sep @ join sep (q # ps)"

section \<open>Document chunks\<close>

text \<open>
  The metadata dictionary of a chunk or of a stored record. The program writes the keys
  \<open>filename\<close>, \<open>filepath\<close>, \<open>file_type\<close>, \<open>relative_path\<close> (strings) and \<open>chunk_id\<close>,
  \<open>start_char\<close>, \<open>end_char\<close> (integers), and reads \<open>filename\<close> and \<open>ticker\<close> (on which it
  calls \<open>upper\<close>, so a string). The field \<open>md_k\<close> is the value at key \<open>k\<close>, and \<open>None\<close>
  when the dictionary has no such key; no other key is written or read.
\<close>

record metadata =
  md_filename :: "string option"
  md_filepath :: "string option"
  md_file_type :: "string option"
  md_relative_path :: "string option"
  md_chunk_id :: "int option"
  md_start_char :: "int option"
  md_end_char :: "int option"
  md_ticker :: "string option"

text \<open>The dictionary \<open>{'text': ..., 'metadata': ...}\<close> built for each chunk.\<close>

record chunk =
  ctext :: string
  cmetadata :: metadata

text \<open>The two fields of \<open>DocumentProcessor\<close> that chunking reads.\<close>

record document_processor =
  chunk_size :: int
  chunk_overlap :: int

text \<open>
  The \<open>while\<close> loop of \<open>chunk_text\<close>, with its three variables \<open>start\<close>, \<open>chunk_id\<close> and
  \<open>chunks\<close>. Nothing bounds the number of iterations, so the loop is a partial function:
  \<open>None\<close> means that it does not return.
\<close>

partial_function (option) chunk_loop ::
  "document_processor \<Rightarrow> string \<Rightarrow> metadata \<Rightarrow> int \<Rightarrow> int \<Rightarrow> chunk list \<Rightarrow> chunk list option"
where
  "chunk_loop self text metadata start chunk_id chunks =
     (if start < int (length text) then
        (let end = start + chunk_size self;
             chunk_text = py_slice text start end;
             chunk = \<lparr>ctext = chunk_text,
                      cmetadata = metadata\<lparr>md_chunk_id := Some chunk_id,
                                           md_start_char := Some start,
                                           md_end_char := Some end\<rparr>\<rparr>
         in chunk_loop self text metadata
              (start + (chunk_size self - chunk_overlap self)) (chunk_id + 1) (chunks @ [chunk]))
      else Some chunks)"

declare chunk_loop.simps [code]

definition chunk_text :: "document_processor \<Rightarrow> string \<Rightarrow> metadata \<Rightarrow> chunk list option" where
  "chunk_text self text metadata = chunk_loop self text metadata 0 0 []"

text \<open>
  The chunk that the loop body builds at position \<open>start\<close> with number \<open>chunk_id\<close>, and the
  number of iterations that remain at \<open>start\<close> for a positive step: used to state what
  the loop returns.
\<close>

definition chunk_at :: "document_processor \<Rightarrow> string \<Rightarrow> metadata \<Rightarrow> int \<Rightarrow> int \<Rightarrow> chunk" where
  "chunk_at self text metadata start chunk_id =
     \<lparr>ctext = py_slice text start (start + chunk_size self),
      cmetadata = metadata\<lparr>md_chunk_id := Some chunk_id,
                           md_start_char := Some start,
                           md_end_char := Some (start + chunk_size self)\<rparr>\<rparr>"

definition stride :: "document_processor \<Rightarrow> int" where
  "stride self = chunk_size self - chunk_overlap self"

definition remaining :: "document_processor \<Rightarrow> string \<Rightarrow> int \<Rightarrow> nat" where
  "remaining self text start = nat (- ((start - int (length text)) div stride self))"

text \<open>
  Concatenating the non-overlapping spans: the first \<open>k\<close> characters of every chunk but
  the last, then the whole last chunk.
\<close>

fun reconstruct :: "nat \<Rightarrow> string list \<Rightarrow> string" where
  "reconstruct k [] = []"
| "reconstruct k [c] = c"
| "reconstruct k (c # d # cs) = take k c @ reconstruct k (d # cs)"

definition no_metadata :: metadata where
  "no_metadata =
     \<lparr>md_filename = None, md_filepath = None, md_file_type = None, md_relative_path = None,
      md_chunk_id = None, md_start_char = None, md_end_char = None, md_ticker = None\<rparr>"

section \<open>Reading the knowledge directory\<close>

text \<open>
  The constants of \<open>config.py\<close> that the modelled functions read. They are parameters of
  the model; \<open>default_config\<close> holds the values written in the file.
\<close>

record config =
  CHUNK_SIZE :: int
  CHUNK_OVERLAP :: int
  TOP_K_RESULTS :: int
  CHROMA_COLLECTION_NAME :: string
  SUPPORTED_FILE_TYPES :: "string list"
  LLM_MAX_TOKENS :: int

definition default_config :: config where
  "default_config =
     \<lparr>CHUNK_SIZE = 1000, CHUNK_OVERLAP = 200, TOP_K_RESULTS = 5,
      CHROMA_COLLECTION_NAME = ''stock_documents'',
      SUPPORTED_FILE_TYPES = [''.txt'', ''.md'', ''.pdf'', ''.json''],
      LLM_MAX_TOKENS = 1000\<rparr>"

text \<open>
  One path that \<open>knowledge_dir.rglob('*')\<close> yields, with what the file system answers for
  it: its name, its full and relative path, its suffix, its suffix in lower case (what
  \<open>file_path.suffix.lower()\<close> gives by the tables of Unicode, taken as it comes and
  not computed here), whether it is a file, and the outcome of each way of reading it (the decoded text, the extracted text of each PDF page,
  the JSON document parsed and printed again with \<open>indent=2\<close>), each of which may raise.
\<close>

record file_entry =
  fe_name :: string
  fe_path :: string
  fe_relative_path :: string
  fe_suffix :: string
  fe_suffix_lower :: string
  fe_is_file :: bool
  fe_text :: "exn + string"
  fe_pdf_pages :: "exn + string list"
  fe_json :: "exn + string"

definition read_text_file :: "file_entry \<Rightarrow> string" where
  "read_text_file file_path = (case fe_text file_path of Inl e \<Rightarrow> [] | Inr s \<Rightarrow> s)"

definition read_pdf_file :: "file_entry \<Rightarrow> string" where
  "read_pdf_file file_path =
     (case fe_pdf_pages file_path of
        Inl e \<Rightarrow> []
      | Inr pages \<Rightarrow> fold (\<lambda>page text. text @ page @ [CHR 0x0A]) pages [])"

definition read_json_file :: "file_entry \<Rightarrow> string" where
  "read_json_file file_path = (case fe_json file_path of Inl e \<Rightarrow> [] | Inr s \<Rightarrow> s)"

definition read_document :: "file_entry \<Rightarrow> string" where
  "read_document file_path =
     (let suffix = fe_suffix_lower file_path
      in if suffix \<in> set [''.txt'', ''.md''] then read_text_file file_path
         else if suffix = ''.pdf'' then read_pdf_file file_path
         else if suffix = ''.json'' then read_json_file file_path
         else [])"

text \<open>
  The loop of \<open>process_documents\<close> over the paths of the directory. It does not return
  when \<open>chunk_text\<close> does not.
\<close>

fun process_loop ::
  "config \<Rightarrow> document_processor \<Rightarrow> file_entry list \<Rightarrow> chunk list \<Rightarrow> chunk list option"
where
  "process_loop cfg self [] all_chunks = Some all_chunks"
| "process_loop cfg self (file_path # rest) all_chunks =
     (let is_supported =
            (fe_is_file file_path \<and> fe_suffix file_path \<in> set (SUPPORTED_FILE_TYPES cfg))
      in if is_supported then
           (let content = read_document file_path
            in if content = [] then process_loop cfg self rest all_chunks
               else
                 (let metadata = no_metadata
                        \<lparr>md_filename := Some (fe_name file_path),
                         md_filepath := Some (fe_path file_path),
                         md_file_type := Some (fe_suffix file_path),
                         md_relative_path := Some (fe_relative_path file_path)\<rparr>
                  in case chunk_text self content metadata of
                       None \<Rightarrow> None
                     | Some chunks \<Rightarrow> process_loop cfg self rest (all_chunks @ chunks)))
         else process_loop cfg self rest all_chunks)"

text \<open>
  \<open>knowledge_dir\<close> is \<open>None\<close> when the directory does not exist, and the listing of its
  paths otherwise.
\<close>

definition process_documents ::
  "config \<Rightarrow> document_processor \<Rightarrow> file_entry list option \<Rightarrow> chunk list option" where
  "process_documents cfg self knowledge_dir =
     (case knowledge_dir of
        None \<Rightarrow> Some []
      | Some paths \<Rightarrow> process_loop cfg self paths [])"

text \<open>\<open>DocumentProcessor()\<close>: the constructor reads the chunk parameters from the configuration.\<close>

definition DocumentProcessor :: "config \<Rightarrow> document_processor" where
  "DocumentProcessor cfg = \<lparr>chunk_size = CHUNK_SIZE cfg, chunk_overlap = CHUNK_OVERLAP cfg\<rparr>"

section \<open>Embeddings\<close>

text \<open>
  The sentence-embedding model is outside the program: \<open>encode\<close> and \<open>encode_batch\<close> are
  what \<open>model.encode(...).tolist()\<close> gives for one text and for a list of texts, or the
  exception it raises. Floating-point numbers are an arbitrary type \<open>'f\<close>.
\<close>

record 'f embedding_generator =
  encode :: "string \<Rightarrow> exn + 'f list"
  encode_batch :: "string list \<Rightarrow> exn + 'f list list"

definition generate_embeddings :: "'f embedding_generator \<Rightarrow> string list \<Rightarrow> 'f list list" where
  "generate_embeddings self texts = (case encode_batch self texts of Inl e \<Rightarrow> [] | Inr es \<Rightarrow> es)"

definition generate_embedding :: "'f embedding_generator \<Rightarrow> string \<Rightarrow> 'f list" where
  "generate_embedding self text = (case encode self text of Inl e \<Rightarrow> [] | Inr v \<Rightarrow> v)"

section \<open>The vector store\<close>

text \<open>
  The persistent client of the vector database, as far as the program uses it: named
  collections of records, each record an id, an embedding, a document and its metadata.
  \<open>delete_collection\<close> raises when no collection has the name, \<open>create_collection\<close> when
  one has; \<open>count\<close>, \<open>add\<close> and \<open>query\<close> act on the collection that the handle
  \<open>self.collection\<close> names, and raise when it is gone. \<open>add\<close> wants as many ids as
  embeddings, metadatas and documents, at least one, and no id twice; a record whose id
  the collection already holds is left out.
\<close>

record 'f chroma_record =
  rec_id :: string
  rec_embedding :: "'f list"
  rec_metadata :: metadata
  rec_document :: string

type_synonym 'f chroma_client = "string \<rightharpoonup> 'f chroma_record list"

definition delete_collection :: "'f chroma_client \<Rightarrow> string \<Rightarrow> exn + 'f chroma_client" where
  "delete_collection client name =
     (case client name of
        None \<Rightarrow> Inl (Exception (''Collection '' @ name @ '' does not exist.''))
      | Some records \<Rightarrow> Inr (client(name := None)))"

definition create_collection :: "'f chroma_client \<Rightarrow> string \<Rightarrow> exn + 'f chroma_client" where
  "create_collection client name =
     (case client name of
        Some records \<Rightarrow> Inl (Exception (''Collection '' @ name @ '' already exists''))
      | None \<Rightarrow> Inr (client(name \<mapsto> [])))"

definition get_collection :: "'f chroma_client \<Rightarrow> string \<Rightarrow> exn + 'f chroma_record list" where
  "get_collection client name =
     (case client name of
        None \<Rightarrow> Inl (Exception (''Collection '' @ name @ '' does not exist.''))
      | Some records \<Rightarrow> Inr records)"

definition collection_count :: "'f chroma_client \<Rightarrow> string \<Rightarrow> exn + nat" where
  "collection_count client name =
     (case get_collection client name of Inl e \<Rightarrow> Inl e | Inr records \<Rightarrow> Inr (length records))"

definition collection_add ::
  "'f chroma_client \<Rightarrow> string \<Rightarrow> string list \<Rightarrow> 'f list list \<Rightarrow> metadata list \<Rightarrow> string list
     \<Rightarrow> exn + 'f chroma_client" where
  "collection_add client name documents embeddings metadatas ids =
     (case get_collection client name of
        Inl e \<Rightarrow> Inl e
      | Inr records \<Rightarrow>
          if ids = [] \<or> length embeddings \<noteq> length ids \<or> length metadatas \<noteq> length ids
               \<or> length documents \<noteq> length ids
          then Inl (Exception ''Unequal or empty lists'')
          else if \<not> distinct ids then Inl (Exception ''Expected IDs to be unique'')
          else
            Inr (client(name \<mapsto> records @
              filter (\<lambda>r. rec_id r \<notin> set (map rec_id records))
                (map (\<lambda>(i, e, m, d).
                        \<lparr>rec_id = i, rec_embedding = e, rec_metadata = m, rec_document = d\<rparr>)
                   (zip ids (zip embeddings (zip metadatas documents)))))))"

text \<open>
  What \<open>query\<close> returns: for each query embedding the documents, metadatas and distances
  of the nearest records, as three lists of lists.
\<close>

record 'f query_result =
  documents :: "string list list"
  metadatas :: "metadata list list"
  distances :: "'f list list"

text \<open>
  \<open>VectorStore\<close>: the collection name, the embedding generator, the client, and the
  nearest-neighbour search of the database (\<open>search records embeddings n\<close>, outside the
  program: its answer for the records of the collection, or the exception it raises).
\<close>

record 'f vector_store =
  collection_name :: string
  embedding_generator :: "'f embedding_generator"
  client :: "'f chroma_client"
  search :: "'f chroma_record list \<Rightarrow> 'f list list \<Rightarrow> int \<Rightarrow> exn + 'f query_result"

definition collection_query ::
  "'f vector_store \<Rightarrow> 'f list list \<Rightarrow> int \<Rightarrow> exn + 'f query_result" where
  "collection_query self query_embeddings n_results =
     (case get_collection (client self) (collection_name self) of
        Inl e \<Rightarrow> Inl e
      | Inr records \<Rightarrow> search self records query_embeddings n_results)"

definition reset_collection :: "'f vector_store \<Rightarrow> exn + 'f vector_store" where
  "reset_collection self =
     (let client1 =
            (case delete_collection (client self) (collection_name self) of
               Inl e \<Rightarrow> client self
             | Inr c \<Rightarrow> c)
      in case create_collection client1 (collection_name self) of
           Inl e \<Rightarrow> Inl e
         | Inr c \<Rightarrow> Inr (self\<lparr>client := c\<rparr>))"

text \<open>
  \<open>ingest_documents\<close> returns the store as it leaves it, or the exception that escapes;
  \<open>None\<close> when document processing does not return.
\<close>

definition ingest_documents ::
  "config \<Rightarrow> file_entry list option \<Rightarrow> 'f vector_store \<Rightarrow> bool \<Rightarrow> (exn + 'f vector_store) option"
where
  "ingest_documents cfg knowledge_dir self force_refresh =
     (case (if force_refresh then reset_collection self else Inr self) of
        Inl e \<Rightarrow> Some (Inl e)
      | Inr self \<Rightarrow>
          (case collection_count (client self) (collection_name self) of
             Inl e \<Rightarrow> Some (Inl e)
           | Inr count \<Rightarrow>
               if count > 0 \<and> \<not> force_refresh then Some (Inr self)
               else
                 (case process_documents cfg (DocumentProcessor cfg) knowledge_dir of
                    None \<Rightarrow> None
                  | Some chunks \<Rightarrow>
                      if chunks = [] then Some (Inr self)
                      else
                        (let documents = map ctext chunks;
                             metadatas = map cmetadata chunks;
                             ids = map (\<lambda>i. ''doc_'' @ str_nat i) [0..<length chunks];
                             embeddings =
                               generate_embeddings (embedding_generator self) documents
                         in if embeddings = [] then Some (Inr self)
                            else
                              (case collection_add (client self) (collection_name self)
                                      documents embeddings metadatas ids of
                                 Inl e \<Rightarrow> Some (Inl e)
                               | Inr c \<Rightarrow> Some (Inr (self\<lparr>client := c\<rparr>)))))))"

definition query ::
  "config \<Rightarrow> 'f vector_store \<Rightarrow> string \<Rightarrow> int option \<Rightarrow> exn + 'f query_result" where
  "query cfg self query_text n_results =
     (let n_results = (case n_results of None \<Rightarrow> TOP_K_RESULTS cfg | Some n \<Rightarrow> n);
          query_embedding = generate_embedding (embedding_generator self) query_text
      in if query_embedding = []
         then Inr \<lparr>documents = [], metadatas = [], distances = []\<rparr>
         else collection_query self [query_embedding] n_results)"

text \<open>
  The loop of \<open>get_context_for_query\<close> over the zipped results, \<open>i\<close> counting them from 0.
  \<open>fmt\<close> stands for the floating-point part: \<open>fmt distance\<close> is \<open>1 - distance\<close> printed
  with two decimals.
\<close>

fun context_loop ::
  "upper_table \<Rightarrow> ('f \<Rightarrow> string) \<Rightarrow> string option \<Rightarrow> nat \<Rightarrow> (string \<times> metadata \<times> 'f) list
     \<Rightarrow> string list \<Rightarrow> string list" where
  "context_loop up fmt ticker i [] context_parts = context_parts"
| "context_loop up fmt ticker i ((doc, metadata, distance) # rest) context_parts =
     (if (case ticker of
            None \<Rightarrow> False
          | Some t \<Rightarrow>
              t \<noteq> [] \<and>
              (case md_ticker metadata of None \<Rightarrow> False | Some v \<Rightarrow> upper up v \<noteq> upper up t))
      then context_loop up fmt ticker (i + 1) rest context_parts
      else context_loop up fmt ticker (i + 1) rest
             (context_parts @
              [''--- Context '' @ str_nat (i + 1) @ '' (Relevance: '' @ fmt distance @ '') ---'',
               ''Source: '' @ (case md_filename metadata of None \<Rightarrow> ''Unknown'' | Some f \<Rightarrow> f),
               ''Content: '' @ doc,
               '''']))"

definition get_context_for_query ::
  "config \<Rightarrow> upper_table \<Rightarrow> ('f \<Rightarrow> string) \<Rightarrow> 'f vector_store \<Rightarrow> string \<Rightarrow> string option
     \<Rightarrow> exn + string" where
  "get_context_for_query cfg up fmt self q ticker =
     (case query cfg self q None of
        Inl e \<Rightarrow> Inl e
      | Inr results \<Rightarrow>
          if documents results = [] \<or> hd (documents results) = []
          then Inr ''No relevant context found.''
          else if metadatas results = [] \<or> distances results = []
          then Inl (Exception ''list index out of range'')
          else
            Inr (join [CHR 0x0A]
              (context_loop up fmt ticker 0
                 (zip (hd (documents results))
                    (zip (hd (metadatas results)) (hd (distances results)))) [])))"

section \<open>The LLM provider\<close>

text \<open>
  \<open>OllamaProvider\<close>. The inference server is outside the program: \<open>ollama_generate\<close> maps
  the request that \<open>ollama.generate\<close> is called with to the \<open>response\<close> field of its
  answer, or to the exception it raises. \<open>generate\<close> returns its outcome together with
  the requests that it sent. The floating-point constant \<open>LLM_TEMPERATURE\<close> of the
  configuration is a field of the provider. \<open>generate\<close> does not read \<open>host\<close>: the call
  goes to the default client of the library.
\<close>

record 'f ollama_request =
  req_model :: string
  req_prompt :: string
  req_temperature :: 'f
  req_num_predict :: int

record 'f ollama_provider =
  model :: string
  host :: string
  LLM_TEMPERATURE :: 'f
  ollama_generate :: "'f ollama_request \<Rightarrow> exn + string"

definition str_exn :: "exn \<Rightarrow> string" where
  "str_exn e = (case e of Exception msg \<Rightarrow> msg)"

text \<open>
  The \<open>RuntimeError\<close> that \<open>generate\<close> raises from an exception of the endpoint, with its
  hint on how to start the server and install the model.
\<close>

definition runtime_error :: "'f ollama_provider \<Rightarrow> exn \<Rightarrow> exn" where
  "runtime_error self e =
     Exception
       (''Error: '' @ str_exn e @ [CHR 0x0A, CHR 0x0A] @
        ''Make sure Ollama is running: ollama serve'' @ [CHR 0x0A] @
        ''And model '' @ [CHR 0x27] @ model self @ [CHR 0x27] @
        '' is installed: ollama pull '' @ model self)"

text \<open>
  The call \<open>ollama.generate(...)\<close>: the endpoint's answer to the request, and the request
  as the one that has been sent.
\<close>

definition ollama_call ::
  "'f ollama_provider \<Rightarrow> 'f ollama_request \<Rightarrow> (exn + string) \<times> 'f ollama_request list" where
  "ollama_call self request = (ollama_generate self request, [request])"

definition generate ::
  "config \<Rightarrow> 'f ollama_provider \<Rightarrow> string \<Rightarrow> string option \<Rightarrow> 'f option \<Rightarrow> int option
     \<Rightarrow> (exn + string) \<times> 'f ollama_request list" where
  "generate cfg self prompt system_prompt temperature max_tokens =
     (let temperature = (case temperature of None \<Rightarrow> LLM_TEMPERATURE self | Some t \<Rightarrow> t);
          max_tokens = (case max_tokens of None \<Rightarrow> LLM_MAX_TOKENS cfg | Some n \<Rightarrow> n);
          full_prompt =
            (case system_prompt of
               None \<Rightarrow> prompt
             | Some sp \<Rightarrow> if sp \<noteq> [] then sp @ [CHR 0x0A, CHR 0x0A] @ prompt else prompt);
          request = \<lparr>req_model = model self, req_prompt = full_prompt,
                     req_temperature = temperature, req_num_predict = max_tokens\<rparr>
      in case ollama_call self request of
           (Inr response, sent) \<Rightarrow> (Inr response, sent)
         | (Inl e, sent) \<Rightarrow> (Inl (runtime_error self e), sent))"

definition get_model_name :: "'f ollama_provider \<Rightarrow> string" where
  "get_model_name self = model self"

section \<open>The MCP server\<close>

text \<open>
  \<open>TickerAIMCPServer\<close> holds a vector store and an LLM provider. Each is an object behind
  an interface, so the server is modelled over the two methods that it calls: the
  context retrieval of the store and the \<open>generate\<close> of the provider (any provider: the
  class is abstract). A handler returns its result together with the calls that it made
  on the two objects, in order.
\<close>

datatype 'f invocation =
  Get_context_for_query string "string option"
| Generate string "string option" "'f option" "int option"

record 'f server =
  vs_get_context_for_query :: "string \<Rightarrow> string option \<Rightarrow> exn + string"
  llm_generate :: "string \<Rightarrow> string option \<Rightarrow> 'f option \<Rightarrow> int option \<Rightarrow> exn + string"
  server_LLM_TEMPERATURE :: 'f
  vs_stats_json :: "exn + string"
  vs_refresh :: "exn + unit"

definition generate_ai_response ::
  "config \<Rightarrow> 'f server \<Rightarrow> string \<Rightarrow> string \<Rightarrow> string \<Rightarrow> string option
     \<Rightarrow> string \<times> 'f invocation list" where
  "generate_ai_response cfg self ticker q context user_context =
     (let system_prompt =
            ''You are a knowledgeable financial analyst AI assistant '' @
            ''specializing in stock market analysis.'' @ [CHR 0x0A] @
            ''You have access to a knowledge base containing information '' @
            ''about various stocks.'' @ [CHR 0x0A, CHR 0x0A] @
            ''Your task is to answer questions about stock ticker '' @
            ticker @ '' based on the provided context.'' @ [CHR 0x0A, CHR 0x0A] @
            ''Guidelines:'' @ [CHR 0x0A] @
            ''- Be factual and base your answers on the provided context'' @ [CHR 0x0A] @
            ''- If the context doesn'' @ [CHR 0x27] @ ''t contain enough information, '' @
            ''acknowledge the limitation'' @ [CHR 0x0A] @
            ''- Provide clear, concise, and actionable insights'' @ [CHR 0x0A] @
            ''- Use professional financial terminology when appropriate'' @ [CHR 0x0A] @
            ''- If asked about predictions, provide balanced analysis '' @
            ''with appropriate disclaimers'' @ [CHR 0x0A];
          user_prompt =
            ''Stock Ticker: '' @ ticker @ [CHR 0x0A] @
            ''User Question: '' @ q @ [CHR 0x0A, CHR 0x0A] @
            ''Relevant Context from Knowledge Base:'' @ [CHR 0x0A] @
            context @ [CHR 0x0A];
          user_prompt =
            (case user_context of
               None \<Rightarrow> user_prompt
             | Some uc \<Rightarrow>
                 if uc \<noteq> []
                 then user_prompt @ [CHR 0x0A, CHR 0x0A] @ ''Additional User Context: '' @ uc
                 else user_prompt);
          user_prompt =
            user_prompt @ [CHR 0x0A, CHR 0x0A] @
            ''Please provide a comprehensive answer to the user'' @ [CHR 0x27] @ ''s '' @
            ''question based on the context provided.'';
          call = Generate user_prompt (Some system_prompt)
                   (Some (server_LLM_TEMPERATURE self)) (Some (LLM_MAX_TOKENS cfg))
      in case llm_generate self user_prompt (Some system_prompt)
                (Some (server_LLM_TEMPERATURE self)) (Some (LLM_MAX_TOKENS cfg)) of
           Inr answer \<Rightarrow> (answer, [call])
         | Inl e \<Rightarrow> (''Error generating response: '' @ str_exn e, [call]))"

text \<open>
  The \<open>arguments\<close> of a tool call: the input schema of \<open>query_stock\<close> declares \<open>ticker\<close>,
  \<open>query\<close> and \<open>context\<close> as strings, so the dictionary maps argument names to strings.
\<close>

type_synonym arguments = "(string \<times> string) list"

definition dict_get :: "(string \<times> 'v) list \<Rightarrow> string \<Rightarrow> 'v \<Rightarrow> 'v" where
  "dict_get d k dflt = (case map_of d k of None \<Rightarrow> dflt | Some v \<Rightarrow> v)"

definition handle_stock_query ::
  "config \<Rightarrow> upper_table \<Rightarrow> 'f server \<Rightarrow> arguments \<Rightarrow> (exn + string) \<times> 'f invocation list"
where
  "handle_stock_query cfg up self arguments =
     (let ticker = upper up (dict_get arguments ''ticker'' []);
          q = dict_get arguments ''query'' [];
          user_context = dict_get arguments ''context'' []
      in if ticker = [] \<or> q = []
         then (Inr ''Error: Both ticker and query are required'', [])
         else
           (let search_query = ticker @ '' '' @ q;
                call = Get_context_for_query search_query (Some ticker)
            in case vs_get_context_for_query self search_query (Some ticker) of
                 Inl e \<Rightarrow> (Inl e, [call])
               | Inr context \<Rightarrow>
                   (let (response, calls) =
                          generate_ai_response cfg self ticker q context (Some user_context)
                    in (Inr response, call # calls))))"

text \<open>
  \<open>call_tool\<close>: every tool answers with a list of text contents, and an exception that
  escapes a handler becomes a text too.
\<close>

datatype text_content = TextContent string

definition call_tool ::
  "config \<Rightarrow> upper_table \<Rightarrow> 'f server \<Rightarrow> string \<Rightarrow> arguments
     \<Rightarrow> text_content list \<times> 'f invocation list" where
  "call_tool cfg up self name arguments =
     (if name = ''query_stock'' then
        (case handle_stock_query cfg up self arguments of
           (Inr result, calls) \<Rightarrow> ([TextContent result], calls)
         | (Inl e, calls) \<Rightarrow> ([TextContent (''Error: '' @ str_exn e)], calls))
      else if name = ''get_vector_store_stats'' then
        (case vs_stats_json self of
           Inr stats_json \<Rightarrow> ([TextContent stats_json], [])
         | Inl e \<Rightarrow> ([TextContent (''Error: '' @ str_exn e)], []))
      else if name = ''refresh_knowledge_base'' then
        (case vs_refresh self of
           Inr u \<Rightarrow> ([TextContent ''Knowledge base refreshed successfully''], [])
         | Inl e \<Rightarrow> ([TextContent (''Error: '' @ str_exn e)], []))
      else ([TextContent (''Unknown tool: '' @ name)], []))"

text \<open>
  The ticker filter of \<open>get_context_for_query\<close>, as the specification words it: a result
  passes unless its metadata has a \<open>ticker\<close> that differs from the given one when both
  are put in upper case. \<open>format_result\<close> is the four lines that a result which passes
  adds to the context.
\<close>

definition ticker_passes :: "upper_table \<Rightarrow> string \<Rightarrow> metadata \<Rightarrow> bool" where
  "ticker_passes up ticker metadata =
     (case md_ticker metadata of None \<Rightarrow> True | Some v \<Rightarrow> upper up v = upper up ticker)"

definition format_result :: "('f \<Rightarrow> string) \<Rightarrow> nat \<times> string \<times> metadata \<times> 'f \<Rightarrow> string list" where
  "format_result fmt r =
     (case r of (i, doc, metadata, distance) \<Rightarrow>
        [''--- Context '' @ str_nat (i + 1) @ '' (Relevance: '' @ fmt distance @ '') ---'',
         ''Source: '' @ (case md_filename metadata of None \<Rightarrow> ''Unknown'' | Some f \<Rightarrow> f),
         ''Content: '' @ doc,
         ''''])"

section \<open>A sample knowledge base\<close>

text \<open>
  Concrete inputs on which the theorems below are instantiated: a directory with the one
  file \<open>aapl.txt\<close>, an embedding model that answers and one that raises, and a store
  whose collection holds three records, two of them with a \<open>ticker\<close> in their metadata,
  and an endpoint that answers with the prompt it was sent.
  Floating-point numbers are integers here, every relevance prints as \<open>1.00\<close>, and
  the table of upper-case forms is the one of the ASCII letters.
\<close>

definition ascii_upper :: upper_table where
  "ascii_upper c =
     (case map_of (zip ''abcdefghijklmnopqrstuvwxyz'' ''ABCDEFGHIJKLMNOPQRSTUVWXYZ'') c of
        None \<Rightarrow> (c, [])
      | Some u \<Rightarrow> (u, []))"

definition sample_file :: file_entry where
  "sample_file =
     \<lparr>fe_name = ''aapl.txt'', fe_path = ''knowledge/aapl.txt'', fe_relative_path = ''aapl.txt'',
      fe_suffix = ''.txt'', fe_suffix_lower = ''.txt'', fe_is_file = True, fe_text = Inr ''AAPL revenue grew 5%.'',
      fe_pdf_pages = Inl (Exception ''not a PDF''), fe_json = Inl (Exception ''not JSON'')\<rparr>"

definition sample_generator :: "int embedding_generator" where
  "sample_generator =
     \<lparr>encode = (\<lambda>t. Inr [int (length t)]),
      encode_batch = (\<lambda>ts. Inr (map (\<lambda>t. [int (length t)]) ts))\<rparr>"

definition failing_generator :: "int embedding_generator" where
  "failing_generator =
     \<lparr>encode = (\<lambda>t. Inl (Exception ''model unavailable'')),
      encode_batch = (\<lambda>ts. Inl (Exception ''model unavailable''))\<rparr>"

definition sample_records :: "int chroma_record list" where
  "sample_records =
     [\<lparr>rec_id = ''doc_0'', rec_embedding = [21],
       rec_metadata = no_metadata\<lparr>md_filename := Some ''aapl.txt'', md_ticker := Some ''aapl''\<rparr>,
       rec_document = ''AAPL revenue grew 5%.''\<rparr>,
      \<lparr>rec_id = ''doc_1'', rec_embedding = [21],
       rec_metadata = no_metadata\<lparr>md_filename := Some ''tsla.txt'', md_ticker := Some ''TSLA''\<rparr>,
       rec_document = ''TSLA deliveries rose.''\<rparr>,
      \<lparr>rec_id = ''doc_2'', rec_embedding = [13],
       rec_metadata = no_metadata\<lparr>md_filename := Some ''notes.md''\<rparr>,
       rec_document = ''Market notes.''\<rparr>]"

definition sample_search ::
  "int chroma_record list \<Rightarrow> int list list \<Rightarrow> int \<Rightarrow> exn + int query_result" where
  "sample_search records query_embeddings n_results =
     Inr \<lparr>documents = [map rec_document records],
          metadatas = [map rec_metadata records],
          distances = [map (\<lambda>r. 0) records]\<rparr>"

definition sample_store :: "int vector_store" where
  "sample_store =
     \<lparr>collection_name = ''stock_documents'', embedding_generator = sample_generator,
      client = [''stock_documents'' \<mapsto> sample_records], search = sample_search\<rparr>"

definition sample_fmt :: "int \<Rightarrow> string" where
  "sample_fmt distance = ''1.00''"

definition sample_provider :: "int ollama_provider" where
  "sample_provider =
     \<lparr>model = ''llama3.2'', host = ''http://localhost:11434'', LLM_TEMPERATURE = 7,
      ollama_generate = (\<lambda>request. Inr (''echo: '' @ req_prompt request))\<rparr>"

definition sample_server :: "int server" where
  "sample_server =
     \<lparr>vs_get_context_for_query = get_context_for_query default_config ascii_upper sample_fmt sample_store,
      llm_generate = (\<lambda>prompt system_prompt temperature max_tokens.
        fst (generate default_config sample_provider prompt system_prompt temperature max_tokens)),
      server_LLM_TEMPERATURE = 7, vs_stats_json = Inr ''{}'', vs_refresh = Inr ()\<rparr>"

section \<open>Chunking: what the loop returns\<close>

lemma py_slice_nonneg:
  "0 \<le> a \<Longrightarrow> 0 \<le> b \<Longrightarrow> py_slice xs a b = take (nat (b - a)) (drop (nat a) xs)"
  by (auto simp: py_slice_def Let_def min_def)

lemma py_slice_clamp: "py_slice xs a (min b (int (length xs))) = py_slice xs a b"
  by (auto simp: py_slice_def Let_def min_def max_def)

text \<open>
  With a positive step the loop returns, and its result is the accumulator followed by
  one chunk for each of the starts \<open>start\<close>, \<open>start + stride\<close>, \<open>\<dots>\<close> below the length.
\<close>

lemma chunk_loop_closed:
  assumes "0 < stride self"
  shows "chunk_loop self t md start cid acc =
         Some (acc @ map (\<lambda>j. chunk_at self t md (start + int j * stride self) (cid + int j))
                       [0..<remaining self t start])"
  using assms
proof (induction "remaining self t start" arbitrary: start cid acc)
  case 0
  then have "0 \<le> (start - int (length t)) div stride self"
    by (simp add: remaining_def)
  with \<open>0 < stride self\<close> have "\<not> start < int (length t)"
    by (simp add: pos_imp_zdiv_nonneg_iff)
  with 0 show ?case
    by (subst chunk_loop.simps) simp
next
  case (Suc n)
  let ?s = "stride self"
  from Suc.hyps(2) have neg: "(start - int (length t)) div ?s < 0"
    by (simp add: remaining_def)
  with \<open>0 < ?s\<close> have lt: "start < int (length t)"
    by (simp add: neg_imp_zdiv_neg_iff div_neg_pos_less0 pos_imp_zdiv_neg_iff)
  have "start + ?s - int (length t) = (start - int (length t)) + ?s" by simp
  with \<open>0 < ?s\<close>
  have "(start + ?s - int (length t)) div ?s = (start - int (length t)) div ?s + 1"
    by (simp only: div_add_self2)
  with Suc.hyps(2) have n: "n = remaining self t (start + ?s)"
    by (simp add: remaining_def)
  have step: "chunk_loop self t md start cid acc =
        chunk_loop self t md (start + ?s) (cid + 1) (acc @ [chunk_at self t md start cid])"
    using lt by (subst chunk_loop.simps) (simp add: Let_def chunk_at_def stride_def)
  have split: "map (\<lambda>j. chunk_at self t md (start + int j * ?s) (cid + int j)) [0..<Suc n] =
        chunk_at self t md start cid #
        map (\<lambda>j. chunk_at self t md (start + ?s + int j * ?s) (cid + 1 + int j)) [0..<n]"
    by (simp add: map_upt_Suc algebra_simps del: upt_Suc)
  have "chunk_loop self t md (start + ?s) (cid + 1) (acc @ [chunk_at self t md start cid]) =
        Some ((acc @ [chunk_at self t md start cid]) @
          map (\<lambda>j. chunk_at self t md (start + ?s + int j * ?s) (cid + 1 + int j)) [0..<n])"
    unfolding n by (rule Suc.hyps(1) [OF n \<open>0 < ?s\<close>])
  also have "\<dots> = Some (acc @
      map (\<lambda>j. chunk_at self t md (start + int j * ?s) (cid + int j)) [0..<Suc n])"
    unfolding split by simp
  finally show ?case
    unfolding step Suc.hyps(2) .
qed

lemma chunk_text_closed:
  "0 < stride self \<Longrightarrow>
   chunk_text self t md =
     Some (map (\<lambda>j. chunk_at self t md (int j * stride self) (int j)) [0..<remaining self t 0])"
  unfolding chunk_text_def using chunk_loop_closed [of self t md 0 0 "[]"] by simp

text \<open>
  With a step that is zero or negative, \<open>start\<close> never gets past 0, so on a text that
  is not empty the guard of the loop holds for ever.
\<close>

lemma chunk_loop_diverges:
  assumes "stride self \<le> 0" and "t \<noteq> []" and "start \<le> 0"
  shows "chunk_loop self t md start cid acc = None"
proof (rule ccontr)
  assume "chunk_loop self t md start cid acc \<noteq> None"
  then obtain r where ret: "chunk_loop self t md start cid acc = Some r" by auto
  have "\<not> (stride self \<le> 0 \<and> t \<noteq> [] \<and> start \<le> 0)"
  proof (rule chunk_loop.raw_induct
      [where P = "\<lambda>self t md start cid acc r. \<not> (stride self \<le> 0 \<and> t \<noteq> [] \<and> start \<le> 0)",
        OF _ ret])
    fix f self t md start cid acc r
    assume IH: "\<And>self t md start cid acc r. f self t md start cid acc = Some r \<Longrightarrow>
        \<not> (stride self \<le> 0 \<and> t \<noteq> [] \<and> start \<le> 0)"
      and eq: "(if start < int (length t) then
        (let end = start + chunk_size self;
             chunk_text = py_slice t start end;
             chunk = \<lparr>ctext = chunk_text,
                      cmetadata = md\<lparr>md_chunk_id := Some cid,
                                     md_start_char := Some start,
                                     md_end_char := Some end\<rparr>\<rparr>
         in f self t md
              (start + (chunk_size self - chunk_overlap self)) (cid + 1) (acc @ [chunk]))
      else Some acc) = Some r"
    show "\<not> (stride self \<le> 0 \<and> t \<noteq> [] \<and> start \<le> 0)"
    proof
      assume inv: "stride self \<le> 0 \<and> t \<noteq> [] \<and> start \<le> 0"
      then have "start < int (length t)" by (cases t) auto
      with eq obtain c where "f self t md (start + stride self) (cid + 1) (acc @ [c]) = Some r"
        by (simp add: Let_def stride_def)
      from IH [OF this] inv show False by simp
    qed
  qed
  with assms show False by simp
qed

lemma chunk_text_nonpos_stride:
  assumes "stride self \<le> 0" and "chunk_text self t md = Some chunks"
  shows "chunks = []"
proof (cases "t = []")
  case True
  with assms(2) show ?thesis
    unfolding chunk_text_def by (subst (asm) chunk_loop.simps) simp
next
  case False
  with assms(1) have "chunk_text self t md = None"
    unfolding chunk_text_def by (rule chunk_loop_diverges) simp
  with assms(2) show ?thesis by simp
qed

subsection \<open>The texts of the chunks cover the text\<close>

lemma reconstruct_Cons: "cs \<noteq> [] \<Longrightarrow> reconstruct k (c # cs) = take k c @ reconstruct k cs"
  by (cases cs) simp_all

lemma reconstruct_slices:
  assumes "0 < s" and "s \<le> S" and "0 \<le> start"
    and "n = nat (- ((start - int (length xs)) div s))"
  shows "reconstruct (nat s)
           (map (\<lambda>j. py_slice xs (start + int j * s) (start + int j * s + S)) [0..<n])
         = drop (nat start) xs"
  using assms
proof (induction n arbitrary: start)
  case 0
  then have "0 \<le> (start - int (length xs)) div s" by simp
  with \<open>0 < s\<close> have "int (length xs) \<le> start"
    by (simp add: pos_imp_zdiv_nonneg_iff)
  then show ?case by simp
next
  case (Suc n)
  let ?L = "int (length xs)"
  let ?f = "\<lambda>st j. py_slice xs (st + int j * s) (st + int j * s + S)"
  from Suc.prems(4) have "(start - ?L) div s < 0" by simp
  with \<open>0 < s\<close> have lt: "start < ?L"
    by (simp add: pos_imp_zdiv_neg_iff)
  have "start + s - ?L = (start - ?L) + s" by simp
  with \<open>0 < s\<close> have "(start + s - ?L) div s = (start - ?L) div s + 1"
    by (simp only: div_add_self2)
  with Suc.prems(4) have n: "n = nat (- ((start + s - ?L) div s))" by simp
  have nonneg: "0 \<le> start + s" using Suc.prems by simp
  have IH: "reconstruct (nat s) (map (?f (start + s)) [0..<n]) = drop (nat (start + s)) xs"
    by (rule Suc.IH [OF \<open>0 < s\<close> \<open>s \<le> S\<close> nonneg n])
  have split: "map (?f start) [0..<Suc n] =
      py_slice xs start (start + S) # map (?f (start + s)) [0..<n]"
    by (simp add: map_upt_Suc algebra_simps del: upt_Suc)
  have first: "py_slice xs start (start + S) = take (nat S) (drop (nat start) xs)"
    using Suc.prems by (simp add: py_slice_nonneg)
  show ?case
  proof (cases n)
    case 0
    with n have "0 \<le> (start + s - ?L) div s" by simp
    with \<open>0 < s\<close> have "?L \<le> start + s" by (simp add: pos_imp_zdiv_nonneg_iff)
    with \<open>s \<le> S\<close> have "length (drop (nat start) xs) \<le> nat S" by simp
    then have "take (nat S) (drop (nat start) xs) = drop (nat start) xs" by simp
    with 0 split first show ?thesis by simp
  next
    case (Suc m)
    then have ne: "map (?f (start + s)) [0..<n] \<noteq> []" by simp
    have "take (nat s) (take (nat S) (drop (nat start) xs)) = take (nat s) (drop (nat start) xs)"
      using \<open>s \<le> S\<close> \<open>0 < s\<close> by (simp add: min_def)
    moreover have "drop (nat (start + s)) xs = drop (nat s) (drop (nat start) xs)"
      using Suc.prems(3) \<open>0 < s\<close> by (simp add: nat_add_distrib add.commute)
    moreover have "take (nat s) (drop (nat start) xs) @ drop (nat s) (drop (nat start) xs)
        = drop (nat start) xs"
      by (rule append_take_drop_id)
    ultimately show ?thesis
      unfolding split reconstruct_Cons [OF ne] IH first by (simp only:)
  qed
qed

lemma chunk_at_span:
  "md_start_char (cmetadata (chunk_at self t md s cid)) = Some s"
  "md_end_char (cmetadata (chunk_at self t md s cid)) = Some (s + chunk_size self)"
  "ctext (chunk_at self t md s cid) = py_slice t s (min (s + chunk_size self) (int (length t)))"
  by (simp_all add: chunk_at_def py_slice_clamp)

lemma ctext_chunk_at:
  "ctext (chunk_at self t md start cid) = py_slice t start (start + chunk_size self)"
  by (simp add: chunk_at_def)

lemma remaining_covers:
  assumes "0 < stride self"
  shows "int (length t) \<le> int (remaining self t 0) * stride self"
proof -
  let ?L = "int (length t)"
  let ?s = "stride self"
  have "(- ?L) div ?s * ?s + (- ?L) mod ?s = - ?L" by simp
  moreover have "0 \<le> (- ?L) mod ?s" using assms by simp
  ultimately have le: "(- ?L) div ?s * ?s \<le> - ?L" by linarith
  have "(- ?L) div ?s \<le> 0"
    using assms by (simp add: div_nonpos_pos_le0)
  then have "int (remaining self t 0) = - ((- ?L) div ?s)"
    by (simp add: remaining_def)
  with le show ?thesis by (simp add: algebra_simps)
qed

text \<open>
  C1. With \<open>0 \<le> chunk_overlap < chunk_size\<close>, \<open>chunk_text\<close> returns, the number of its
  chunks is the ceiling of the length of the text divided by
  \<open>chunk_size - chunk_overlap\<close>, and the first \<open>chunk_size - chunk_overlap\<close> characters
  of every chunk but the last, followed by the whole last chunk, are the text.
\<close>

theorem chunk_text_count_and_reconstruction:
  assumes "0 \<le> chunk_overlap self" and "chunk_overlap self < chunk_size self"
  shows "\<exists>chunks. chunk_text self t md = Some chunks
           \<and> int (length chunks)
               = \<lceil>real (length t) / real_of_int (chunk_size self - chunk_overlap self)\<rceil>
           \<and> reconstruct (nat (chunk_size self - chunk_overlap self)) (map ctext chunks) = t"
proof -
  let ?s = "stride self"
  let ?n = "remaining self t 0"
  let ?chunks = "map (\<lambda>j. chunk_at self t md (0 + int j * ?s) (0 + int j)) [0..<?n]"
  from assms have pos: "0 < ?s" and le: "?s \<le> chunk_size self" by (simp_all add: stride_def)
  have ret: "chunk_text self t md = Some ?chunks"
    unfolding chunk_text_def using chunk_loop_closed [OF pos, of t md 0 0 "[]"] by simp
  have "0 \<le> - ((- int (length t)) div ?s)"
    using pos by (simp add: neg_imp_zdiv_nonneg_iff div_nonpos_pos_le0)
  then have "int ?n = - ((- int (length t)) div ?s)"
    by (simp add: remaining_def)
  also have "\<dots> = \<lceil>real_of_int (int (length t)) / real_of_int ?s\<rceil>"
    by (simp only: ceiling_divide_eq_div)
  finally have count: "int (length ?chunks) = \<lceil>real (length t) / real_of_int ?s\<rceil>"
    by simp
  have texts: "map ctext ?chunks =
      map (\<lambda>j. py_slice t (0 + int j * ?s) (0 + int j * ?s + chunk_size self)) [0..<?n]"
    by (simp add: ctext_chunk_at)
  have "reconstruct (nat ?s) (map ctext ?chunks) = drop (nat 0) t"
    unfolding texts by (rule reconstruct_slices [OF pos le]) (simp_all add: remaining_def)
  then have "reconstruct (nat ?s) (map ctext ?chunks) = t" by simp
  with ret count show ?thesis by (simp add: stride_def)
qed

theorem chunk_text_count_and_reconstruction_witness:
  "\<exists>chunks. chunk_text \<lparr>chunk_size = 4, chunk_overlap = 1\<rparr> ''abcdefgh'' no_metadata = Some chunks
     \<and> int (length chunks) = 3
     \<and> reconstruct 3 (map ctext chunks) = ''abcdefgh''"
  using chunk_text_count_and_reconstruction
    [of "\<lparr>chunk_size = 4, chunk_overlap = 1\<rparr>" "''abcdefgh''" no_metadata]
  by simp

text \<open>
  C2. When \<open>chunk_overlap \<ge> chunk_size\<close> and the text is not empty, \<open>chunk_text\<close> does
  not return (it raises nothing either: the loop runs for ever); when
  \<open>0 \<le> chunk_overlap < chunk_size\<close> it returns for every text.
\<close>

theorem chunk_text_termination:
  "(chunk_overlap self \<ge> chunk_size self \<and> t \<noteq> [] \<longrightarrow> chunk_text self t md = None)
   \<and> (0 \<le> chunk_overlap self \<and> chunk_overlap self < chunk_size self
        \<longrightarrow> (\<exists>chunks. chunk_text self t md = Some chunks))"
proof (intro conjI impI)
  assume "chunk_overlap self \<ge> chunk_size self \<and> t \<noteq> []"
  then have "stride self \<le> 0" and "t \<noteq> []" by (simp_all add: stride_def)
  then show "chunk_text self t md = None"
    unfolding chunk_text_def by (rule chunk_loop_diverges) simp
next
  assume "0 \<le> chunk_overlap self \<and> chunk_overlap self < chunk_size self"
  then have "0 < stride self" by (simp add: stride_def)
  from chunk_loop_closed [OF this, of t md 0 0 "[]"]
  show "\<exists>chunks. chunk_text self t md = Some chunks"
    unfolding chunk_text_def by blast
qed

theorem chunk_text_termination_witness:
  "chunk_text \<lparr>chunk_size = 2, chunk_overlap = 2\<rparr> ''ab'' no_metadata = None
   \<and> (\<exists>chunks. chunk_text \<lparr>chunk_size = 2, chunk_overlap = 1\<rparr> ''ab'' no_metadata = Some chunks)"
  using chunk_text_termination [of "\<lparr>chunk_size = 2, chunk_overlap = 2\<rparr>" "''ab''" no_metadata]
    chunk_text_termination [of "\<lparr>chunk_size = 2, chunk_overlap = 1\<rparr>" "''ab''" no_metadata]
  by simp

text \<open>
  C10. Every chunk that \<open>chunk_text\<close> returns has
  \<open>end_char = start_char + chunk_size\<close> in its metadata, and its text is the slice of
  the text from \<open>start_char\<close> to the smaller of \<open>end_char\<close> and the length of the text.
  In particular, the overlap being a number of shared characters and so not negative,
  when the length of the text is not a multiple of \<open>chunk_size - chunk_overlap\<close> the
  \<open>end_char\<close> of the last chunk is greater than the length of the text: it is not
  clamped.
\<close>

theorem chunk_metadata_span:
  assumes ret: "chunk_text self t md = Some chunks"
  shows "(\<forall>c \<in> set chunks. \<exists>s. md_start_char (cmetadata c) = Some s
            \<and> md_end_char (cmetadata c) = Some (s + chunk_size self)
            \<and> ctext c = py_slice t s (min (s + chunk_size self) (int (length t))))
     \<and> (0 \<le> chunk_overlap self \<and> chunks \<noteq> [] \<and> \<not> stride self dvd int (length t)
          \<longrightarrow> (\<exists>e. md_end_char (cmetadata (last chunks)) = Some e \<and> int (length t) < e))"
proof (cases "0 < stride self")
  case False
  then have "stride self \<le> 0" by simp
  from chunk_text_nonpos_stride [OF this ret] have "chunks = []" .
  then show ?thesis by simp
next
  case True
  let ?n = "remaining self t 0"
  let ?f = "\<lambda>j. chunk_at self t md (int j * stride self) (int j)"
  from ret chunk_text_closed [OF True, of t md] have chunks: "chunks = map ?f [0..<?n]" by simp
  have each: "\<forall>c \<in> set chunks. \<exists>s. md_start_char (cmetadata c) = Some s
            \<and> md_end_char (cmetadata c) = Some (s + chunk_size self)
            \<and> ctext c = py_slice t s (min (s + chunk_size self) (int (length t)))"
    unfolding chunks using chunk_at_span [of self t md] by auto
  have "\<exists>e. md_end_char (cmetadata (last chunks)) = Some e \<and> int (length t) < e"
    if ov: "0 \<le> chunk_overlap self" and ne: "chunks \<noteq> []"
      and nd: "\<not> stride self dvd int (length t)"
  proof -
    from ne chunks have pos: "0 < ?n" by simp
    then have "last chunks = ?f (?n - 1)"
      unfolding chunks by (simp add: last_map last_upt)
    then have e: "md_end_char (cmetadata (last chunks))
        = Some (int (?n - 1) * stride self + chunk_size self)"
      by (simp add: chunk_at_span)
    have "int (length t) \<le> int ?n * stride self" by (rule remaining_covers [OF True])
    moreover have "int (length t) \<noteq> int ?n * stride self" using nd by auto
    moreover have "int ?n * stride self = int (?n - 1) * stride self + stride self"
      using pos by (simp add: algebra_simps of_nat_diff)
    moreover have "stride self \<le> chunk_size self" using ov by (simp add: stride_def)
    ultimately have "int (length t) < int (?n - 1) * stride self + chunk_size self" by linarith
    with e show ?thesis by simp
  qed
  with each show ?thesis by blast
qed

theorem chunk_metadata_span_witness:
  "chunk_text \<lparr>chunk_size = 4, chunk_overlap = 1\<rparr> ''abcdefgh'' no_metadata
     = Some [chunk_at \<lparr>chunk_size = 4, chunk_overlap = 1\<rparr> ''abcdefgh'' no_metadata 0 0,
             chunk_at \<lparr>chunk_size = 4, chunk_overlap = 1\<rparr> ''abcdefgh'' no_metadata 3 1,
             chunk_at \<lparr>chunk_size = 4, chunk_overlap = 1\<rparr> ''abcdefgh'' no_metadata 6 2]
   \<and> (\<exists>s. md_start_char (cmetadata
          (chunk_at \<lparr>chunk_size = 4, chunk_overlap = 1\<rparr> ''abcdefgh'' no_metadata 3 1)) = Some s
        \<and> md_end_char (cmetadata
          (chunk_at \<lparr>chunk_size = 4, chunk_overlap = 1\<rparr> ''abcdefgh'' no_metadata 3 1)) = Some (s + 4)
        \<and> ctext (chunk_at \<lparr>chunk_size = 4, chunk_overlap = 1\<rparr> ''abcdefgh'' no_metadata 3 1)
            = py_slice ''abcdefgh'' s (min (s + 4) 8))
   \<and> (\<exists>e. md_end_char (cmetadata
          (chunk_at \<lparr>chunk_size = 4, chunk_overlap = 1\<rparr> ''abcdefgh'' no_metadata 6 2)) = Some e
        \<and> 8 < e)"
proof -
  let ?P = "\<lparr>chunk_size = 4, chunk_overlap = 1\<rparr>"
  let ?chunks = "[chunk_at ?P ''abcdefgh'' no_metadata 0 0,
                  chunk_at ?P ''abcdefgh'' no_metadata 3 1,
                  chunk_at ?P ''abcdefgh'' no_metadata 6 2]"
  have ret: "chunk_text ?P ''abcdefgh'' no_metadata = Some ?chunks"
    by (simp add: chunk_text_def chunk_loop.simps chunk_at_def Let_def)
  from chunk_metadata_span [OF ret] ret show ?thesis
    by (simp add: stride_def)
qed

section \<open>Ingestion\<close>

lemma str_nat_nonempty: "str_nat n \<noteq> []"
  by (subst str_nat.simps) simp

lemma digit_char_inj: "a < 10 \<Longrightarrow> b < 10 \<Longrightarrow> digit_char a = digit_char b \<Longrightarrow> a = b"
  unfolding digit_char_def by (subst (asm) nth_eq_iff_index_eq) simp_all

text \<open>Different numbers print differently, so the ids \<open>doc_0\<close>, \<open>doc_1\<close>, \<open>\<dots>\<close> are distinct.\<close>

lemma str_nat_inj: "str_nat m = str_nat n \<Longrightarrow> m = n"
proof (induction m arbitrary: n rule: str_nat.induct)
  case (1 m)
  show ?case
  proof (cases "m < 10")
    case small_m: True
    show ?thesis
    proof (cases "n < 10")
      case True
      with small_m "1.prems" show ?thesis
        by (simp add: str_nat.simps [of m] str_nat.simps [of n] digit_char_inj)
    next
      case False
      with small_m "1.prems" str_nat_nonempty [of "n div 10"] show ?thesis
        by (simp add: str_nat.simps [of m] str_nat.simps [of n] Cons_eq_append_conv)
    qed
  next
    case big_m: False
    show ?thesis
    proof (cases "n < 10")
      case True
      with big_m "1.prems" str_nat_nonempty [of "m div 10"] show ?thesis
        by (simp add: str_nat.simps [of m] str_nat.simps [of n] append_eq_Cons_conv)
    next
      case False
      with big_m "1.prems" have pre: "str_nat (m div 10) = str_nat (n div 10)"
        and dig: "digit_char (m mod 10) = digit_char (n mod 10)"
        by (simp_all add: str_nat.simps [of m] str_nat.simps [of n])
      from "1.IH" [OF big_m pre] have "m div 10 = n div 10" .
      moreover from dig have "m mod 10 = n mod 10"
        by (rule digit_char_inj [rotated 2]) simp_all
      ultimately show ?thesis by (metis div_mult_mod_eq)
    qed
  qed
qed

lemma distinct_doc_ids: "distinct (map (\<lambda>i. ''doc_'' @ str_nat i) [0..<k])"
  by (simp add: distinct_map inj_on_def str_nat_inj)

lemma reset_collection_eq:
  "reset_collection self = Inr (self\<lparr>client := (client self)(collection_name self \<mapsto> [])\<rparr>)"
  by (cases "client self (collection_name self)")
     (simp_all add: reset_collection_def delete_collection_def create_collection_def)

lemma new_records_documents:
  assumes "length ids = length es" and "length es = length ms" and "length ms = length ds"
  shows "map rec_document
           (map (\<lambda>(i, e, m, d).
                   \<lparr>rec_id = i, rec_embedding = e, rec_metadata = m, rec_document = d\<rparr>)
              (zip ids (zip es (zip ms ds)))) = ds"
  using assms by (induction ids es ms ds rule: list_induct4) simp_all

text \<open>
  C5. When the collection holds at least one record, \<open>ingest_documents\<close> without
  \<open>force_refresh\<close> returns and leaves the store as it was: no record is added and none
  is deleted.
\<close>

theorem ingest_skips_populated_collection:
  assumes "collection_count (client self) (collection_name self) = Inr n" and "0 < n"
  shows "ingest_documents cfg knowledge_dir self False = Some (Inr self)"
  using assms by (simp add: ingest_documents_def)

theorem ingest_skips_populated_collection_witness:
  "collection_count (client sample_store) (collection_name sample_store) = Inr 3
   \<and> ingest_documents default_config (Some [sample_file]) sample_store False
       = Some (Inr sample_store)"
proof -
  have count: "collection_count (client sample_store) (collection_name sample_store) = Inr 3"
    by (simp add: sample_store_def sample_records_def collection_count_def get_collection_def)
  from ingest_skips_populated_collection [OF count] count show ?thesis by simp
qed

text \<open>
  C6. Whatever the store holds before, when document processing returns the chunks and
  the embedding model returns one embedding for each of them, \<open>ingest_documents\<close> with
  \<open>force_refresh\<close> leaves a collection whose record count is the number of chunks, and
  whose documents are the texts of the chunks: no earlier record is left.
\<close>

theorem ingest_force_refresh_replaces_records:
  assumes chunks: "process_documents cfg (DocumentProcessor cfg) knowledge_dir = Some chunks"
    and enc: "encode_batch (embedding_generator self) (map ctext chunks) = Inr es"
    and len: "length es = length chunks"
  shows "\<exists>self' records.
           ingest_documents cfg knowledge_dir self True = Some (Inr self')
           \<and> collection_count (client self') (collection_name self') = Inr (length chunks)
           \<and> get_collection (client self') (collection_name self') = Inr records
           \<and> map rec_document records = map ctext chunks"
proof -
  define c where "c = (client self)(collection_name self \<mapsto> [])"
  have reset: "reset_collection self = Inr (self\<lparr>client := c\<rparr>)"
    unfolding c_def by (rule reset_collection_eq)
  have empty: "c (collection_name self) = Some []"
    by (simp add: c_def)
  let ?self1 = "self\<lparr>client := c\<rparr>"
  have count: "collection_count (client ?self1) (collection_name ?self1) = Inr 0"
    using empty by (simp add: collection_count_def get_collection_def)
  show ?thesis
  proof (cases "chunks = []")
    case True
    with reset count chunks empty show ?thesis
      by (simp add: ingest_documents_def collection_count_def get_collection_def)
  next
    case False
    let ?ids = "map (\<lambda>i. ''doc_'' @ str_nat i) [0..<length chunks]"
    let ?new = "map (\<lambda>(i, e, m, d).
                        \<lparr>rec_id = i, rec_embedding = e, rec_metadata = m, rec_document = d\<rparr>)
                   (zip ?ids (zip es (zip (map cmetadata chunks) (map ctext chunks))))"
    have emb: "generate_embeddings (embedding_generator ?self1) (map ctext chunks) = es"
      using enc by (simp add: generate_embeddings_def)
    from False len have es: "es \<noteq> []" by auto
    have add: "collection_add (client ?self1) (collection_name ?self1)
                 (map ctext chunks) es (map cmetadata chunks) ?ids
               = Inr (c(collection_name self \<mapsto> ?new))"
      using empty False len distinct_doc_ids [of "length chunks"]
      by (simp add: collection_add_def get_collection_def)
    have ing: "ingest_documents cfg knowledge_dir self True
               = Some (Inr (?self1\<lparr>client := c(collection_name self \<mapsto> ?new)\<rparr>))"
      using reset count chunks False emb es add
      by (simp add: ingest_documents_def Let_def)
    have docs: "map rec_document ?new = map ctext chunks"
      using len by (intro new_records_documents) simp_all
    then have "length ?new = length chunks"
      by (metis length_map)
    with ing docs show ?thesis
      by (simp add: collection_count_def get_collection_def del: map_map)
  qed
qed

lemma sample_chunks:
  "process_documents default_config (DocumentProcessor default_config) (Some [sample_file])
   = Some [chunk_at (DocumentProcessor default_config) ''AAPL revenue grew 5%.''
             (no_metadata\<lparr>md_filename := Some ''aapl.txt'', md_filepath := Some ''knowledge/aapl.txt'',
                md_file_type := Some ''.txt'', md_relative_path := Some ''aapl.txt''\<rparr>) 0 0]"
  by (simp add: process_documents_def default_config_def sample_file_def DocumentProcessor_def
      read_document_def read_text_file_def chunk_text_def
      chunk_loop.simps chunk_at_def Let_def)

lemma sample_chunk_text:
  "ctext (chunk_at (DocumentProcessor default_config) ''AAPL revenue grew 5%.'' md 0 0)
   = ''AAPL revenue grew 5%.''"
  by (simp add: chunk_at_def py_slice_def DocumentProcessor_def default_config_def)

theorem ingest_force_refresh_replaces_records_witness:
  "\<exists>self' records.
     ingest_documents default_config (Some [sample_file]) sample_store True = Some (Inr self')
     \<and> collection_count (client self') (collection_name self') = Inr 1
     \<and> get_collection (client self') (collection_name self') = Inr records
     \<and> map rec_document records = [''AAPL revenue grew 5%.'']"
proof -
  have enc: "encode_batch (embedding_generator sample_store)
      (map ctext [chunk_at (DocumentProcessor default_config) ''AAPL revenue grew 5%.''
             (no_metadata\<lparr>md_filename := Some ''aapl.txt'', md_filepath := Some ''knowledge/aapl.txt'',
                md_file_type := Some ''.txt'', md_relative_path := Some ''aapl.txt''\<rparr>) 0 0])
      = Inr [[21]]"
    by (simp add: sample_store_def sample_generator_def sample_chunk_text)
  from ingest_force_refresh_replaces_records [OF sample_chunks enc] show ?thesis
    by (simp add: sample_chunk_text)
qed

section \<open>Queries and context\<close>

text \<open>
  C7. When the embedding model raises on the query text, or returns an empty vector,
  \<open>generate_embedding\<close> returns the empty list, \<open>query\<close> returns (it does not raise) the
  result with no documents, metadatas and distances, and \<open>get_context_for_query\<close>
  returns \<open>No relevant context found.\<close>
\<close>

theorem embedding_failure_gives_no_context:
  assumes "(\<exists>e. encode (embedding_generator self) q = Inl e)
             \<or> encode (embedding_generator self) q = Inr []"
  shows "generate_embedding (embedding_generator self) q = []
         \<and> query cfg self q n = Inr \<lparr>documents = [], metadatas = [], distances = []\<rparr>
         \<and> get_context_for_query cfg up fmt self q ticker = Inr ''No relevant context found.''"
proof -
  from assms have emb: "generate_embedding (embedding_generator self) q = []"
    by (auto simp: generate_embedding_def)
  then have "\<And>n. query cfg self q n = Inr \<lparr>documents = [], metadatas = [], distances = []\<rparr>"
    by (simp add: query_def)
  with emb show ?thesis
    by (simp add: get_context_for_query_def)
qed

theorem embedding_failure_gives_no_context_witness:
  "generate_embedding failing_generator ''AAPL revenue'' = []
   \<and> query default_config (sample_store\<lparr>embedding_generator := failing_generator\<rparr>)
        ''AAPL revenue'' None
       = Inr \<lparr>documents = [], metadatas = [], distances = []\<rparr>
   \<and> get_context_for_query default_config ascii_upper sample_fmt
        (sample_store\<lparr>embedding_generator := failing_generator\<rparr>) ''AAPL revenue'' (Some ''AAPL'')
       = Inr ''No relevant context found.''"
  using embedding_failure_gives_no_context
    [where self = "sample_store\<lparr>embedding_generator := failing_generator\<rparr>"
       and q = "''AAPL revenue''" and cfg = default_config and n = None and up = ascii_upper
       and fmt = sample_fmt and ticker = "Some ''AAPL''"]
  by (simp add: failing_generator_def)

text \<open>
  The loop adds to the context the four lines of every result that passes the ticker
  filter, in order, and nothing for the others.
\<close>

lemma context_loop_filter:
  assumes "ticker \<noteq> []"
  shows "context_loop up fmt (Some ticker) i rs acc =
         acc @ concat (map (format_result fmt)
                 (filter (\<lambda>(i, doc, metadata, distance). ticker_passes up ticker metadata)
                    (zip [i..<i + length rs] rs)))"
proof (induction rs arbitrary: i acc)
  case Nil
  show ?case by simp
next
  case (Cons r rs)
  obtain doc metadata distance where r: "r = (doc, metadata, distance)"
    by (cases r) auto
  have "[i..<i + length (r # rs)] = i # [Suc i..<Suc i + length rs]"
    by (subst upt_rec) simp
  then have zip:
    "zip [i..<i + length (r # rs)] (r # rs) = (i, r) # zip [Suc i..<Suc i + length rs] rs"
    by (simp only: zip_Cons_Cons)
  show ?case
  proof (cases "ticker_passes up ticker metadata")
    case True
    with assms have "context_loop up fmt (Some ticker) i (r # rs) acc =
        context_loop up fmt (Some ticker) (Suc i) rs (acc @ format_result fmt (i, r))"
      by (simp add: r ticker_passes_def format_result_def split: option.splits)
    with True show ?thesis
      unfolding zip by (simp add: Cons.IH r)
  next
    case False
    with assms have "context_loop up fmt (Some ticker) i (r # rs) acc =
        context_loop up fmt (Some ticker) (Suc i) rs acc"
      by (simp add: r ticker_passes_def split: option.splits)
    with False show ?thesis
      unfolding zip by (simp add: Cons.IH r)
  qed
qed

text \<open>
  C4. For a result list that is not empty and a ticker that is not empty, the context
  is made of exactly the results that pass the filter, each with its position in the
  whole list: a result is left out if and only if its metadata has a \<open>ticker\<close> whose upper
  case differs from that of the given ticker, and a result without one is kept.
\<close>

theorem context_keeps_matching_and_untagged:
  assumes "query cfg self q None = Inr results"
    and "documents results = docs # ds" and "docs \<noteq> []"
    and "metadatas results = mds # ms" and "distances results = dists # dss"
    and "ticker \<noteq> []"
  shows "get_context_for_query cfg up fmt self q (Some ticker) =
         Inr (join [CHR 0x0A]
           (concat (map (format_result fmt)
              (filter (\<lambda>(i, doc, metadata, distance).
                         \<not> (\<exists>v. md_ticker metadata = Some v \<and> upper up v \<noteq> upper up ticker))
                 (enumerate 0 (zip docs (zip mds dists)))))))"
proof -
  have same: "(\<lambda>(i, doc, metadata, distance). ticker_passes up ticker metadata) =
      (\<lambda>(i :: nat, doc :: string, metadata, distance :: 'a).
         \<not> (\<exists>v. md_ticker metadata = Some v \<and> upper up v \<noteq> upper up ticker))"
    by (auto simp: fun_eq_iff ticker_passes_def split: option.splits)
  from assms show ?thesis
    by (simp add: get_context_for_query_def context_loop_filter [OF \<open>ticker \<noteq> []\<close>]
        same enumerate_eq_zip)
qed

theorem context_keeps_matching_and_untagged_witness:
  "get_context_for_query default_config ascii_upper sample_fmt sample_store ''AAPL revenue'' (Some ''AAPL'') =
     Inr (join [CHR 0x0A]
       [''--- Context 1 (Relevance: 1.00) ---'', ''Source: aapl.txt'',
        ''Content: AAPL revenue grew 5%.'', '''',
        ''--- Context 3 (Relevance: 1.00) ---'', ''Source: notes.md'',
        ''Content: Market notes.'', ''''])"
proof -
  let ?results = "\<lparr>documents = [map rec_document sample_records],
           metadatas = [map rec_metadata sample_records],
           distances = [map (\<lambda>r. 0 :: int) sample_records]\<rparr>"
  have q: "query default_config sample_store ''AAPL revenue'' None = Inr ?results"
    by (simp add: query_def sample_store_def sample_generator_def generate_embedding_def
        collection_query_def get_collection_def sample_search_def)
  have "get_context_for_query default_config ascii_upper sample_fmt sample_store ''AAPL revenue''
          (Some ''AAPL'') =
        Inr (join [CHR 0x0A]
          (concat (map (format_result sample_fmt)
             (filter (\<lambda>(i, doc, metadata, distance).
                        \<not> (\<exists>v. md_ticker metadata = Some v \<and> upper ascii_upper v \<noteq> upper ascii_upper ''AAPL''))
                (enumerate 0 (zip (map rec_document sample_records)
                   (zip (map rec_metadata sample_records)
                      (map (\<lambda>r. 0 :: int) sample_records))))))))"
    by (rule context_keeps_matching_and_untagged [OF q])
       (simp_all add: sample_records_def)
  then show ?thesis
    by (simp add: sample_records_def no_metadata_def enumerate_eq_zip upt_conv_Cons
        format_result_def sample_fmt_def upper_def ascii_upper_def str_nat.simps digit_char_def)
qed

text \<open>
  Whatever the accumulator, the loop only appends to it; and what it appends is nothing,
  or begins with a header line, whose first character is a dash.
\<close>

lemma context_loop_append:
  "context_loop up fmt tk i rs acc = acc @ context_loop up fmt tk i rs []"
proof (induction rs arbitrary: i acc)
  case Nil
  show ?case by simp
next
  case (Cons r rs)
  obtain doc metadata distance where r: "r = (doc, metadata, distance)"
    by (cases r) auto
  let ?lines = "format_result fmt (i, doc, metadata, distance)"
  show ?case
  proof (cases "case tk of None \<Rightarrow> False
                | Some t \<Rightarrow> t \<noteq> [] \<and>
                    (case md_ticker metadata of None \<Rightarrow> False | Some v \<Rightarrow> upper up v \<noteq> upper up t)")
    case True
    then have "\<And>acc. context_loop up fmt tk i (r # rs) acc = context_loop up fmt tk (i + 1) rs acc"
      by (simp add: r)
    with Cons.IH [of "i + 1" acc] show ?thesis by simp
  next
    case False
    then have step: "\<And>acc. context_loop up fmt tk i (r # rs) acc =
        context_loop up fmt tk (i + 1) rs (acc @ ?lines)"
      by (simp add: r format_result_def)
    from Cons.IH [of "i + 1" "acc @ ?lines"] Cons.IH [of "i + 1" "[] @ ?lines"]
    show ?thesis unfolding step by simp
  qed
qed

lemma context_loop_head:
  "context_loop up fmt tk i rs [] = []
   \<or> (\<exists>l ls. context_loop up fmt tk i rs [] = (CHR ''-'' # l) # ls)"
proof (induction rs arbitrary: i)
  case Nil
  show ?case by simp
next
  case (Cons r rs)
  obtain doc metadata distance where r: "r = (doc, metadata, distance)"
    by (cases r) auto
  let ?lines = "format_result fmt (i, doc, metadata, distance)"
  show ?case
  proof (cases "case tk of None \<Rightarrow> False
                | Some t \<Rightarrow> t \<noteq> [] \<and>
                    (case md_ticker metadata of None \<Rightarrow> False | Some v \<Rightarrow> upper up v \<noteq> upper up t)")
    case True
    then have "context_loop up fmt tk i (r # rs) [] = context_loop up fmt tk (i + 1) rs []"
      by (simp add: r)
    with Cons.IH [of "i + 1"] show ?thesis by simp
  next
    case False
    then have "context_loop up fmt tk i (r # rs) [] = context_loop up fmt tk (i + 1) rs ([] @ ?lines)"
      by (simp add: r format_result_def)
    also have "\<dots> = ?lines @ context_loop up fmt tk (i + 1) rs []"
      using context_loop_append [of up fmt tk "i + 1" rs "[] @ ?lines"] by simp
    finally show ?thesis by (simp add: format_result_def)
  qed
qed

lemma join_dash: "join sep ((CHR ''-'' # l) # ls) \<noteq> ''No relevant context found.''"
  by (cases ls) simp_all

text \<open>
  C9. When the search returns at least one result and the ticker filter leaves out every
  one of them, \<open>get_context_for_query\<close> returns the empty string; and it returns
  \<open>No relevant context found.\<close> only when the search returned no document.
\<close>

theorem all_filtered_gives_empty_context:
  assumes q: "query cfg self q None = Inr results"
  shows "(documents results = docs # ds \<and> docs \<noteq> []
            \<and> metadatas results = mds # ms \<and> distances results = dists # dss
            \<and> ticker \<noteq> []
            \<and> (\<forall>(doc, metadata, distance) \<in> set (zip docs (zip mds dists)).
                  \<exists>v. md_ticker metadata = Some v \<and> upper up v \<noteq> upper up ticker)
          \<longrightarrow> get_context_for_query cfg up fmt self q (Some ticker) = Inr [])
       \<and> (get_context_for_query cfg up fmt self q tk = Inr ''No relevant context found.''
          \<longrightarrow> documents results = [] \<or> hd (documents results) = [])"
proof (intro conjI impI)
  assume a: "documents results = docs # ds \<and> docs \<noteq> []
            \<and> metadatas results = mds # ms \<and> distances results = dists # dss
            \<and> ticker \<noteq> []
            \<and> (\<forall>(doc, metadata, distance) \<in> set (zip docs (zip mds dists)).
                  \<exists>v. md_ticker metadata = Some v \<and> upper up v \<noteq> upper up ticker)"
  let ?rs = "zip docs (zip mds dists)"
  have "\<forall>x \<in> set (zip [0..<0 + length ?rs] ?rs).
          \<not> (case x of (i, doc, metadata, distance) \<Rightarrow> ticker_passes up ticker metadata)"
  proof
    fix x assume x: "x \<in> set (zip [0..<0 + length ?rs] ?rs)"
    obtain i doc metadata distance where xe: "x = (i, doc, metadata, distance)"
      by (cases x) auto
    with x have "(doc, metadata, distance) \<in> set ?rs" by (auto dest: set_zip_rightD)
    with a have "\<exists>v. md_ticker metadata = Some v \<and> upper up v \<noteq> upper up ticker" by auto
    with xe show "\<not> (case x of (i, doc, metadata, distance) \<Rightarrow> ticker_passes up ticker metadata)"
      by (auto simp: ticker_passes_def)
  qed
  then have "filter (\<lambda>(i, doc, metadata, distance). ticker_passes up ticker metadata)
               (zip [0..<0 + length ?rs] ?rs) = []"
    by (simp only: filter_empty_conv)
  with a have "context_loop up fmt (Some ticker) 0 ?rs [] = []"
    by (simp add: context_loop_filter)
  with q a show "get_context_for_query cfg up fmt self q (Some ticker) = Inr []"
    by (simp add: get_context_for_query_def)
next
  assume msg: "get_context_for_query cfg up fmt self q tk = Inr ''No relevant context found.''"
  show "documents results = [] \<or> hd (documents results) = []"
  proof (rule ccontr)
    assume ne: "\<not> (documents results = [] \<or> hd (documents results) = [])"
    let ?parts = "context_loop up fmt tk 0
        (zip (hd (documents results)) (zip (hd (metadatas results)) (hd (distances results)))) []"
    from msg q ne have j: "join [CHR 0x0A] ?parts = ''No relevant context found.''"
      by (simp add: get_context_for_query_def split: if_splits)
    from context_loop_head [of up fmt tk 0] consider "?parts = []"
      | l ls where "?parts = (CHR ''-'' # l) # ls" by blast
    then show False
    proof cases
      case 1
      with j show False by simp
    next
      case 2
      with j join_dash [of "[CHR 0x0A]" l ls] show False by simp
    qed
  qed
qed

theorem all_filtered_gives_empty_context_witness:
  "get_context_for_query default_config ascii_upper sample_fmt
     (sample_store\<lparr>client := [''stock_documents'' \<mapsto> take 2 sample_records]\<rparr>)
     ''MSFT outlook'' (Some ''MSFT'') = Inr []
   \<and> get_context_for_query default_config ascii_upper sample_fmt
       (sample_store\<lparr>client := [''stock_documents'' \<mapsto> take 2 sample_records]\<rparr>)
       ''MSFT outlook'' (Some ''MSFT'') \<noteq> Inr ''No relevant context found.''"
proof -
  let ?store = "sample_store\<lparr>client := [''stock_documents'' \<mapsto> take 2 sample_records]\<rparr>"
  let ?results = "\<lparr>documents = [map rec_document (take 2 sample_records)],
           metadatas = [map rec_metadata (take 2 sample_records)],
           distances = [map (\<lambda>r. 0 :: int) (take 2 sample_records)]\<rparr>"
  have q: "query default_config ?store ''MSFT outlook'' None = Inr ?results"
    by (simp add: query_def sample_store_def sample_generator_def generate_embedding_def
        collection_query_def get_collection_def sample_search_def)
  from all_filtered_gives_empty_context [OF q,
      where docs = "map rec_document (take 2 sample_records)" and ds = "[]"
        and mds = "map rec_metadata (take 2 sample_records)" and ms = "[]"
        and dists = "map (\<lambda>r. 0 :: int) (take 2 sample_records)" and dss = "[]"
        and ticker = "''MSFT''" and up = ascii_upper and fmt = sample_fmt
        and tk = "Some ''MSFT''"]
  show ?thesis
    by (simp add: sample_records_def no_metadata_def upper_def ascii_upper_def)
qed

section \<open>The provider and the server\<close>

text \<open>
  C8. With a system prompt that is not empty, \<open>generate\<close> applies the endpoint to one
  request, whose prompt is the system prompt, two newlines and the prompt, and its
  outcome is what the endpoint answers to that request (the response, or the error
  raised from the endpoint's exception); with no system prompt the same holds with the
  prompt unchanged. The request is the only one that \<open>generate\<close> sends.
\<close>

theorem generate_sends_combined_prompt:
  "(let request = (\<lambda>full_prompt.
          \<lparr>req_model = model self, req_prompt = full_prompt,
           req_temperature = (case temperature of None \<Rightarrow> LLM_TEMPERATURE self | Some t \<Rightarrow> t),
           req_num_predict = (case max_tokens of None \<Rightarrow> LLM_MAX_TOKENS cfg | Some n \<Rightarrow> n)\<rparr>);
        answer = (\<lambda>rq. case ollama_generate self rq of
                          Inr response \<Rightarrow> Inr response
                        | Inl e \<Rightarrow> Inl (runtime_error self e))
    in (system_prompt \<noteq> [] \<longrightarrow>
          generate cfg self prompt (Some system_prompt) temperature max_tokens
            = (answer (request (system_prompt @ [CHR 0x0A, CHR 0x0A] @ prompt)),
               [request (system_prompt @ [CHR 0x0A, CHR 0x0A] @ prompt)]))
       \<and> generate cfg self prompt None temperature max_tokens
            = (answer (request prompt), [request prompt]))"
  by (simp add: generate_def ollama_call_def Let_def split: sum.splits)

theorem generate_sends_combined_prompt_witness:
  "generate default_config sample_provider ''How is AAPL?'' (Some ''You are an analyst.'')
     None None
     = (Inr (''echo: You are an analyst.'' @ [CHR 0x0A, CHR 0x0A] @ ''How is AAPL?''),
        [\<lparr>req_model = ''llama3.2'',
          req_prompt = ''You are an analyst.'' @ [CHR 0x0A, CHR 0x0A] @ ''How is AAPL?'',
          req_temperature = 7, req_num_predict = 1000\<rparr>])
   \<and> generate default_config sample_provider ''How is AAPL?'' None None None
     = (Inr ''echo: How is AAPL?'',
        [\<lparr>req_model = ''llama3.2'', req_prompt = ''How is AAPL?'',
          req_temperature = 7, req_num_predict = 1000\<rparr>])"
  using generate_sends_combined_prompt
    [where system_prompt = "''You are an analyst.''" and cfg = default_config
       and self = sample_provider and prompt = "''How is AAPL?''"
       and temperature = None and max_tokens = None]
  by (simp add: sample_provider_def default_config_def Let_def)

lemma upper_empty_iff: "upper up s = [] \<longleftrightarrow> s = []"
  by (simp add: upper_def)

text \<open>
  C3. When the \<open>ticker\<close> or the \<open>query\<close> argument is missing or empty, the handler
  returns (it does not raise) the text \<open>Error: Both ticker and query are required\<close>
  and calls neither the vector store nor the LLM provider, and \<open>call_tool\<close> answers
  with that text as an ordinary text content.
\<close>

theorem missing_argument_is_reported_inline:
  assumes "map_of arguments ''ticker'' = None \<or> map_of arguments ''ticker'' = Some []
           \<or> map_of arguments ''query'' = None \<or> map_of arguments ''query'' = Some []"
  shows "handle_stock_query cfg up self arguments
           = (Inr ''Error: Both ticker and query are required'', [])
         \<and> call_tool cfg up self ''query_stock'' arguments
           = ([TextContent ''Error: Both ticker and query are required''], [])"
proof -
  from assms have "upper up (dict_get arguments ''ticker'' []) = []
      \<or> dict_get arguments ''query'' [] = []"
    by (auto simp: dict_get_def upper_empty_iff)
  then have "handle_stock_query cfg up self arguments
      = (Inr ''Error: Both ticker and query are required'', [])"
    by (auto simp: handle_stock_query_def Let_def)
  then show ?thesis by (simp add: call_tool_def)
qed

theorem missing_argument_is_reported_inline_witness:
  "handle_stock_query default_config ascii_upper sample_server
       [(''ticker'', ''AAPL''), (''query'', '''')]
     = (Inr ''Error: Both ticker and query are required'', [])
   \<and> call_tool default_config ascii_upper sample_server ''query_stock''
       [(''ticker'', ''AAPL''), (''query'', '''')]
     = ([TextContent ''Error: Both ticker and query are required''], [])"
  using missing_argument_is_reported_inline
    [where arguments = "[(''ticker'', ''AAPL''), (''query'', '''')]" and cfg = default_config
       and up = ascii_upper and self = sample_server]
  by simp

end
